theory Spec2Isabelle
  imports Main "HOL-Library.Multiset"
begin

section \<open>The site crawler of the enterprise catalogue (server/services/crawler.js)\<close>

text \<open>
  The crawler service is a class of asynchronous methods over collaborators that are not
  code of the repository: the platform's URL class, the HTTP client (axios), the HTML
  parser (cheerio) and the document store (mongoose). The collaborators are parameters of
  the model (the record \<open>world\<close> below); everything the service itself computes is
  written out. Exceptions are values of a sum type, mutation is state passing, and what a
  crawl does besides returning (requests sent, bodies parsed, log lines) is a list of
  events returned next to the value. Strings are sequences of bytes, the UTF-8 encoding of
  the JavaScript strings.

  Two imports of the service do not bind what the code goes on to use. Every module reads
  \<open>const { logger } = require('../utils/logger')\<close>, and that module exports the logger
  object itself, which has no property \<open>logger\<close>; crawler.js reads
  \<open>const { rateLimit } = require('../middlewares/rateLimit')\<close>, and that module exports
  the factory function itself, which has no property \<open>rateLimit\<close>. The methods of the
  service are modelled with both names bound to what the code means by them: a logger whose
  \<open>error\<close> records a line and returns, and the limiter factory. The limiter, whose own
  behaviour depends on its logger, takes the binding as an argument.
\<close>

subsection \<open>URL objects\<close>

text \<open>
  The state of a URL object, as the URL standard has it: the scheme without its colon, the
  credentials, the host and the port (\<open>None\<close> is the standard's null: no authority, or
  the default port of the scheme), the path in its serialised form with a flag for an
  opaque path (that of \<open>mailto:a@b.c\<close> or \<open>foo:a//b\<close>, which has no segments), and
  the query and the fragment without their \<open>?\<close> and \<open>#\<close> (\<open>None\<close> when the URL
  has none, which differs from an empty one).
\<close>

record URL =
  url_scheme :: string
  username :: string
  password :: string
  url_host :: "string option"
  url_port :: "string option"
  opaque_path :: bool
  url_path :: string
  url_query :: "string option"
  url_fragment :: "string option"

text \<open>
  The getters of the URL class that the service and the statements below read; \<open>hash\<close>
  is empty for a missing fragment and for an empty one.
\<close>

definition protocol :: "URL \<Rightarrow> string" where
  "protocol u = url_scheme u @ '':''"

definition hostname :: "URL \<Rightarrow> string" where
  "hostname u = (case url_host u of None \<Rightarrow> [] | Some h \<Rightarrow> h)"

definition port :: "URL \<Rightarrow> string" where
  "port u = (case url_port u of None \<Rightarrow> [] | Some p \<Rightarrow> p)"

definition host :: "URL \<Rightarrow> string" where
  "host u = hostname u @ (if port u = [] then [] else '':'' @ port u)"

definition pathname :: "URL \<Rightarrow> string" where
  "pathname u = url_path u"


definition userinfo :: "URL \<Rightarrow> string" where
  "userinfo u =
     (if username u = [] \<and> password u = [] then []
      else username u @ (if password u = [] then [] else '':'' @ password u) @ ''@'')"

text \<open>
  \<open>href\<close> is the serialisation of the standard: the authority only when there is a host,
  \<open>/.\<close> in front of a path that would otherwise read as an authority, and an empty
  query or fragment with its bare \<open>?\<close> or \<open>#\<close>.
\<close>

definition href :: "URL \<Rightarrow> string" where
  "href u =
     url_scheme u @ '':''
     @ (case url_host u of
          Some h \<Rightarrow>
            ''//'' @ userinfo u @ h @ (case url_port u of None \<Rightarrow> [] | Some p \<Rightarrow> '':'' @ p)
        | None \<Rightarrow> if \<not> opaque_path u \<and> take 2 (url_path u) = ''//'' then ''/.'' else [])
     @ url_path u
     @ (case url_query u of None \<Rightarrow> [] | Some q \<Rightarrow> ''?'' @ q)
     @ (case url_fragment u of None \<Rightarrow> [] | Some f \<Rightarrow> ''#'' @ f)"

text \<open>
  \<open>parsed.protocol = 'https:'\<close>, which the service executes only when the protocol is
  \<open>http:\<close>. The setter changes the scheme and, as the standard prescribes, drops a
  port that is the default port of the new scheme.
\<close>

definition set_protocol_https :: "URL \<Rightarrow> URL" where
  "set_protocol_https u =
     u\<lparr>url_scheme := ''https'',
       url_port := (if url_port u = Some ''443'' then None else url_port u)\<rparr>"

text \<open>
  \<open>s.replace(/\/+/g, '/')\<close>: every maximal run of slashes becomes one slash.
\<close>

fun collapse_slashes :: "string \<Rightarrow> string" where
  "collapse_slashes (c # d # cs) =
     (if c = CHR ''/'' \<and> d = CHR ''/'' then collapse_slashes (d # cs)
      else c # collapse_slashes (d # cs))"
| "collapse_slashes cs = cs"


text \<open>
  \<open>parsed.pathname = v\<close>. On a URL with an opaque path the setter does nothing.
  Otherwise it parses \<open>v\<close> as a path; the value assigned by the service is the getter's
  own value with runs of slashes collapsed, which is already percent-encoded and free of
  dot segments, so the setter stores it as it is.
\<close>

definition set_pathname :: "URL \<Rightarrow> string \<Rightarrow> URL" where
  "set_pathname u v = (if opaque_path u then u else u\<lparr>url_path := v\<rparr>)"

subsection \<open>Parsed documents\<close>

text \<open>
  What the service reads from a loaded document: the elements in document order, each with
  its tag name, its attributes (the first of a repeated attribute counts) and its text
  content.
\<close>

record element =
  tag :: string
  attrs :: "(string \<times> string) list"
  text_content :: string

type_synonym document = "element list"

text \<open>\<open>$(el).attr(name)\<close>: \<open>None\<close> is JavaScript's \<open>undefined\<close>.\<close>

definition attr :: "element \<Rightarrow> string \<Rightarrow> string option" where
  "attr el name = map_of (attrs el) name"

text \<open>
  The selector engine compares the value of an attribute exactly, except for the
  attributes whose values HTML declares case-insensitive, \<open>rel\<close> among them: for these
  both sides are put in lower case first (bytes outside ASCII are compared as they are).
\<close>

definition case_insensitive_attributes :: "string list" where
  "case_insensitive_attributes =
     [''accept'', ''accept-charset'', ''align'', ''alink'', ''axis'', ''bgcolor'', ''charset'',
      ''checked'', ''clear'', ''codetype'', ''color'', ''compact'', ''declare'', ''defer'',
      ''dir'', ''direction'', ''disabled'', ''enctype'', ''face'', ''frame'', ''hreflang'',
      ''http-equiv'', ''lang'', ''language'', ''link'', ''media'', ''method'', ''multiple'',
      ''nohref'', ''noresize'', ''noshade'', ''nowrap'', ''readonly'', ''rel'', ''rev'',
      ''rules'', ''scope'', ''scrolling'', ''selected'', ''shape'', ''target'', ''text'',
      ''type'', ''valign'', ''valuetype'', ''vlink'']"

definition to_lower :: "char \<Rightarrow> char" where
  "to_lower c =
     (let n = (of_char c :: nat) in if 65 \<le> n \<and> n \<le> 90 then char_of (n + 32) else c)"

definition attr_is :: "element \<Rightarrow> string \<Rightarrow> string \<Rightarrow> bool" where
  "attr_is el name v =
     (case attr el name of
        None \<Rightarrow> False
      | Some a \<Rightarrow>
          if name \<in> set case_insensitive_attributes then map to_lower a = map to_lower v
          else a = v)"

text \<open>\<open>$('tag')\<close> and \<open>$('tag[name="value"]')\<close>.\<close>

definition select_tag :: "document \<Rightarrow> string \<Rightarrow> element list" where
  "select_tag doc t = filter (\<lambda>el. tag el = t) doc"

definition select_attr :: "document \<Rightarrow> string \<Rightarrow> string \<Rightarrow> string \<Rightarrow> element list" where
  "select_attr doc t name v = filter (\<lambda>el. tag el = t \<and> attr_is el name v) doc"

text \<open>
  \<open>selection.attr(name)\<close> reads the attribute of the first selected element and is
  \<open>undefined\<close> on an empty selection; \<open>selection.text()\<close> concatenates the text of
  all selected elements.
\<close>

definition first_attr :: "element list \<Rightarrow> string \<Rightarrow> string option" where
  "first_attr sel name = (case sel of [] \<Rightarrow> None | el # _ \<Rightarrow> attr el name)"

definition text_of :: "element list \<Rightarrow> string" where
  "text_of sel = concat (map text_content sel)"

text \<open>\<open>v || d\<close> on a string or \<open>undefined\<close>: the empty string is falsy as well.\<close>

definition or_else :: "string option \<Rightarrow> string \<Rightarrow> string" where
  "or_else v d = (case v of None \<Rightarrow> d | Some s \<Rightarrow> if s = [] then d else s)"

text \<open>
  \<open>s.trim()\<close> removes white space and line terminators from both ends. These are the
  code points U+0009 to U+000D, U+0020, U+00A0, U+1680, U+2000 to U+200A, U+2028, U+2029,
  U+202F, U+205F, U+3000 and U+FEFF, here in their UTF-8 encoding.
\<close>

definition white_space :: "string list" where
  "white_space =
     [[CHR 0x09], [CHR 0x0A], [CHR 0x0B], [CHR 0x0C], [CHR 0x0D], [CHR 0x20],
      [CHR 0xC2, CHR 0xA0],
      [CHR 0xE1, CHR 0x9A, CHR 0x80],
      [CHR 0xE2, CHR 0x80, CHR 0x80], [CHR 0xE2, CHR 0x80, CHR 0x81],
      [CHR 0xE2, CHR 0x80, CHR 0x82], [CHR 0xE2, CHR 0x80, CHR 0x83],
      [CHR 0xE2, CHR 0x80, CHR 0x84], [CHR 0xE2, CHR 0x80, CHR 0x85],
      [CHR 0xE2, CHR 0x80, CHR 0x86], [CHR 0xE2, CHR 0x80, CHR 0x87],
      [CHR 0xE2, CHR 0x80, CHR 0x88], [CHR 0xE2, CHR 0x80, CHR 0x89],
      [CHR 0xE2, CHR 0x80, CHR 0x8A],
      [CHR 0xE2, CHR 0x80, CHR 0xA8], [CHR 0xE2, CHR 0x80, CHR 0xA9],
      [CHR 0xE2, CHR 0x80, CHR 0xAF],
      [CHR 0xE2, CHR 0x81, CHR 0x9F],
      [CHR 0xE3, CHR 0x80, CHR 0x80],
      [CHR 0xEF, CHR 0xBB, CHR 0xBF]]"

text \<open>
  Removing from the front of a string every leading occurrence of one of the given
  sequences; each of them starts a code point, so this removes whole code points.
\<close>

definition leading :: "string list \<Rightarrow> string \<Rightarrow> string option" where
  "leading seqs s = List.find (\<lambda>t. t \<noteq> [] \<and> take (length t) s = t) seqs"

function strip_leading :: "string list \<Rightarrow> string \<Rightarrow> string" where
  "strip_leading seqs s =
     (case leading seqs s of
        None \<Rightarrow> s
      | Some t \<Rightarrow> strip_leading seqs (drop (length t) s))"
  by pat_completeness auto
termination
proof (relation "measure (\<lambda>(seqs, s). length s)")
  show "wf (measure (\<lambda>(seqs, s). length s))" by simp
next
  fix seqs :: "string list" and s t :: string
  assume "leading seqs s = Some t"
  then have t: "t \<noteq> []" "take (length t) s = t"
    by (auto simp: leading_def find_Some_iff)
  then have "s \<noteq> []" by auto
  with t show "((seqs, drop (length t) s), (seqs, s)) \<in> measure (\<lambda>(seqs, s). length s)"
    by (cases t) auto
qed

declare strip_leading.simps [simp del]

definition trim :: "string \<Rightarrow> string" where
  "trim s = rev (strip_leading (map rev white_space) (rev (strip_leading white_space s)))"

subsection \<open>Results, records of the store, collaborators\<close>

text \<open>
  An error message is the \<open>message\<close> of a JavaScript \<open>Error\<close>. The service builds
  its own messages from fixed texts; \<open>CrawlFailed m\<close> is the text that \<open>crawlWebsite\<close>
  puts in front of the message \<open>m\<close> of the error it caught, \<open>ClientError\<close> is an
  error of the HTTP client, \<open>ParserError\<close> one of the HTML parser and \<open>StoreError\<close>
  one of the document store.
\<close>

datatype message =
    InvalidUrlFormat
  | WebsiteNotFound
  | ClientError string
  | ParserError string
  | StoreError string
  | CrawlFailed message

text \<open>
  The body of a response as the HTTP client hands it on: the text received, or, when the
  text is valid JSON, the value that the client's default transformation has parsed from it
  (here with the text it was parsed from).
\<close>

datatype payload = Text string | Parsed string

record response =
  status :: int
  headers :: "string \<rightharpoonup> string"
  data :: payload

record metadata =
  title :: string
  description :: string
  keywords_meta :: string
  canonical :: string
  viewport :: string
  ogTitle :: string
  ogDescription :: string
  ogImage :: string

record link =
  link_url :: string
  link_text :: string
  external :: bool

record crawl_data =
  metadata :: metadata
  technologies :: "string list"
  links :: "link list"

record crawl_result =
  url :: string
  result_status :: int
  result_data :: crawl_data

text \<open>
  The fields of a website document that \<open>updateWebsiteData\<close> reads or writes; times are
  milliseconds since the epoch.
\<close>

record website =
  domain :: string
  site_technologies :: "string list"
  site_metadata :: "metadata option"
  lastCrawledAt :: "nat option"
  lastCrawlStatus :: string
  crawlError :: "message option"

type_synonym store = "string \<rightharpoonup> website"

record world =
  url_parse :: "string \<Rightarrow> URL option"
  url_resolve :: "string \<Rightarrow> string \<Rightarrow> URL option"
  http_get :: "string \<Rightarrow> message + response"
  html_load :: "payload \<Rightarrow> message + document"
  store_save :: "website \<Rightarrow> message option"

text \<open>
  \<open>url_parse\<close> is \<open>new URL(s)\<close> and \<open>url_resolve href base\<close> is
  \<open>new URL(href, base)\<close>, \<open>None\<close> where the constructor throws; \<open>http_get\<close> is
  \<open>axios.get\<close> with the service's fixed configuration; \<open>html_load\<close> is
  \<open>cheerio.load\<close>, which may throw on a body that is not a text; \<open>store_save\<close>
  is the error with which the store rejects a document in \<open>website.save()\<close>,
  \<open>None\<close> when it stores it.

  What a method does besides returning a value:
\<close>

datatype event =
    Acquire
  | Get string
  | Load payload
  | LogCrawlFailed string message
  | LogDeepCrawlFailed string message

text \<open>
  \<open>Acquire\<close> is a call of \<open>applyRateLimit\<close>, \<open>Get h\<close> a request sent by
  \<open>axios.get\<close> for \<open>h\<close>, \<open>Load b\<close> a call of \<open>cheerio.load\<close> on the body
  \<open>b\<close>, and the two others are the calls of \<open>logger.error\<close> in
  \<open>crawlWebsite\<close> and \<open>deepCrawlWebsite\<close>, with the URL and the error they are
  given.
\<close>

subsection \<open>validateUrl\<close>

definition validateUrl :: "world \<Rightarrow> string \<Rightarrow> URL option" where
  "validateUrl w u =
     (case url_parse w u of
        None \<Rightarrow> None
      | Some parsed \<Rightarrow>
          (let parsed1 = (if protocol parsed = ''http:'' then set_protocol_https parsed else parsed)
           in Some (set_pathname parsed1 (collapse_slashes (pathname parsed1)))))"

subsection \<open>extractMetadata\<close>

definition extractMetadata :: "document \<Rightarrow> URL \<Rightarrow> metadata" where
  "extractMetadata doc parsedUrl =
     \<lparr>title = trim (text_of (select_tag doc ''title'')),
      description = or_else (first_attr (select_attr doc ''meta'' ''name'' ''description'') ''content'') [],
      keywords_meta = or_else (first_attr (select_attr doc ''meta'' ''name'' ''keywords'') ''content'') [],
      canonical = or_else (first_attr (select_attr doc ''link'' ''rel'' ''canonical'') ''href'') (href parsedUrl),
      viewport = or_else (first_attr (select_attr doc ''meta'' ''name'' ''viewport'') ''content'') [],
      ogTitle = or_else (first_attr (select_attr doc ''meta'' ''property'' ''og:title'') ''content'') [],
      ogDescription = or_else (first_attr (select_attr doc ''meta'' ''property'' ''og:description'') ''content'') [],
      ogImage = or_else (first_attr (select_attr doc ''meta'' ''property'' ''og:image'') ''content'') []\<rparr>"

subsection \<open>detectTechnologies\<close>

fun starts_with :: "string \<Rightarrow> string \<Rightarrow> bool" where
  "starts_with [] s = True"
| "starts_with (p # ps) [] = False"
| "starts_with (p # ps) (c # cs) = (p = c \<and> starts_with ps cs)"

fun contains :: "string \<Rightarrow> string \<Rightarrow> bool" where
  "contains pat [] = (pat = [])"
| "contains pat (c # cs) = (starts_with pat (c # cs) \<or> contains pat cs)"

text \<open>
  The signature table, in the order of \<open>Object.entries\<close>. Each regular expression is an
  alternation of literal texts, so \<open>regex.test(src)\<close> holds when \<open>src\<close> contains one of
  them.
\<close>

definition frameworkSignatures :: "(string \<times> string list) list" where
  "frameworkSignatures =
     [(''React'', [''react'', ''react-dom'']),
      (''Vue'', [''vue'', ''vue-router'']),
      (''Angular'', [''angular'']),
      (''jQuery'', [''jquery''])]"

definition regex_test :: "string list \<Rightarrow> string \<Rightarrow> bool" where
  "regex_test alternatives s = list_ex (\<lambda>a. contains a s) alternatives"

text \<open>\<open>[...new Set(xs)]\<close>: the first occurrence of each value, in insertion order.\<close>

definition new_Set :: "'a list \<Rightarrow> 'a list" where
  "new_Set xs = fold (\<lambda>x acc. if x \<in> set acc then acc else acc @ [x]) xs []"

definition header_value :: "response \<Rightarrow> string \<Rightarrow> string list" where
  "header_value r name = (case headers r name of None \<Rightarrow> [] | Some v \<Rightarrow> if v = [] then [] else [v])"

definition script_matches :: "element \<Rightarrow> string list" where
  "script_matches el =
     (let src = or_else (attr el ''src'') []
      in map fst (filter (\<lambda>(name, regex). regex_test regex src) frameworkSignatures))"

text \<open>
  The method loads the body of the response for itself; what the parser throws there
  leaves the method.
\<close>

definition detectTechnologies :: "world \<Rightarrow> response \<Rightarrow> (message + string list) \<times> event list" where
  "detectTechnologies w r =
     (case html_load w (data r) of
        Inl e \<Rightarrow> (Inl e, [Load (data r)])
      | Inr doc \<Rightarrow>
          (Inr (new_Set (header_value r ''server'' @ header_value r ''x-powered-by''
                         @ concat (map script_matches (select_tag doc ''script'')))),
           [Load (data r)]))"

subsection \<open>extractLinks\<close>

text \<open>
  The body of the \<open>each\<close> callback: an anchor without \<open>href\<close>, with an empty one, or
  with one that \<open>new URL(href, baseUrl)\<close> rejects, adds nothing.
\<close>

definition link_of_anchor :: "world \<Rightarrow> string \<Rightarrow> URL \<Rightarrow> element \<Rightarrow> link list" where
  "link_of_anchor w baseUrl parsedUrl el =
     (case attr el ''href'' of
        None \<Rightarrow> []
      | Some h \<Rightarrow>
          if h = [] then []
          else (case url_resolve w h baseUrl of
                  None \<Rightarrow> []
                | Some u \<Rightarrow>
                    if hostname u = hostname parsedUrl
                    then [\<lparr>link_url = href u, link_text = trim (text_content el), external = False\<rparr>]
                    else [\<lparr>link_url = href u, link_text = trim (text_content el), external = True\<rparr>]))"

fun each_anchor :: "world \<Rightarrow> string \<Rightarrow> URL \<Rightarrow> element list \<Rightarrow> link list \<Rightarrow> link list" where
  "each_anchor w baseUrl parsedUrl [] ls = ls"
| "each_anchor w baseUrl parsedUrl (el # els) ls =
     each_anchor w baseUrl parsedUrl els (ls @ link_of_anchor w baseUrl parsedUrl el)"

definition extractLinks :: "world \<Rightarrow> document \<Rightarrow> URL \<Rightarrow> link list" where
  "extractLinks w doc parsedUrl =
     (let baseUrl = protocol parsedUrl @ ''//'' @ host parsedUrl
      in each_anchor w baseUrl parsedUrl (select_tag doc ''a'') [])"

section \<open>The rate limiter (server/middlewares/rateLimit.js)\<close>

text \<open>
  The limiter keeps one record per client in a table; \<open>Date.now()\<close> is an argument of
  the model. Of a request the middleware reads \<open>ip\<close>, \<open>headers\<close>,
  \<open>connection.remoteAddress\<close> and \<open>method\<close>, each of which may be missing
  (\<open>None\<close> is \<open>undefined\<close>). The response object is either a server response, with
  \<open>setHeader\<close>, \<open>status\<close> and \<open>json\<close>, or a plain object without them. The text
  of the configured message is not part of the model.
\<close>

record limiter_options =
  windowMs :: int
  max_requests :: int
  statusCode :: int
  skipSuccessfulRequests :: bool
  skipFailedRequests :: bool

record client_record =
  count_requests :: int
  startTime :: int

type_synonym requests = "string \<rightharpoonup> client_record"

record request =
  ip :: "string option"
  req_headers :: "(string \<rightharpoonup> string) option"
  connection :: "string option option"
  req_method :: "string option"

datatype res_object = PlainObject | ServerResponse

datatype js_error = TypeError | ReferenceError

text \<open>
  What the middleware does with a request: it calls \<open>next\<close>, or it answers with the
  status code and the number of seconds after which to retry, or an exception leaves it.
\<close>

datatype outcome = Next | Rejected int int | Thrown js_error

definition defaultConfig :: limiter_options where
  "defaultConfig =
     \<lparr>windowMs = 15 * 60 * 1000, max_requests = 100, statusCode = 429,
      skipSuccessfulRequests = False, skipFailedRequests = False\<rparr>"

definition truthy :: "string option \<Rightarrow> bool" where
  "truthy v = (case v of None \<Rightarrow> False | Some s \<Rightarrow> s \<noteq> [])"

text \<open>
  \<open>req.ip || req.headers['x-forwarded-for'] || req.connection.remoteAddress || 'unknown'\<close>:
  reading a property of \<open>undefined\<close> throws a \<open>TypeError\<close>.
\<close>

definition getClientIdentifier :: "request \<Rightarrow> js_error + string" where
  "getClientIdentifier req =
     (if truthy (ip req) then Inr (the (ip req))
      else (case req_headers req of
              None \<Rightarrow> Inl TypeError
            | Some hs \<Rightarrow>
                if truthy (hs ''x-forwarded-for'') then Inr (the (hs ''x-forwarded-for''))
                else (case connection req of
                        None \<Rightarrow> Inl TypeError
                      | Some remoteAddress \<Rightarrow>
                          if truthy remoteAddress then Inr (the remoteAddress)
                          else Inr ''unknown'')))"

text \<open>
  \<open>shouldSkip(req, options)\<close> names a variable \<open>res\<close> that is not in its scope:
  evaluating \<open>res.statusCode\<close> throws a \<open>ReferenceError\<close>. The conjunctions are
  evaluated from the left, so the variable is reached only behind the two options.
\<close>

definition shouldSkip :: "request \<Rightarrow> limiter_options \<Rightarrow> js_error + bool" where
  "shouldSkip req options =
     (if skipSuccessfulRequests options \<and> req_method req = Some ''GET'' then Inl ReferenceError
      else if skipFailedRequests options then Inl ReferenceError
      else Inr False)"

text \<open>\<open>Math.ceil(ms / 1000)\<close> on integers.\<close>

definition ceil_seconds :: "int \<Rightarrow> int" where
  "ceil_seconds ms = - ((- ms) div 1000)"

text \<open>
  The body of the \<open>try\<close> block of the middleware returned by \<open>createLimiter(config)\<close>,
  with \<open>options\<close> the merged configuration, \<open>currentTime\<close> the value of
  \<open>Date.now()\<close> and \<open>logger\<close> telling whether the module's variable \<open>logger\<close> is
  bound to a logger. The block ends with an outcome or with an exception, and with the
  table as it is then: on a plain object \<open>res.setHeader\<close> is not a function, and in the
  last branch it is called after the record has been stored.
\<close>

definition limiter_try ::
  "bool \<Rightarrow> limiter_options \<Rightarrow> int \<Rightarrow> request \<Rightarrow> res_object \<Rightarrow> requests
     \<Rightarrow> (js_error + outcome) \<times> requests" where
  "limiter_try logger options currentTime req res table =
     (case getClientIdentifier req of
        Inl err \<Rightarrow> (Inl err, table)
      | Inr clientId \<Rightarrow>
          (case shouldSkip req options of
             Inl err \<Rightarrow> (Inl err, table)
           | Inr skip \<Rightarrow>
               if skip then (Inr Next, table)
               else
                 (let clientRecord =
                        (case table clientId of
                           Some r \<Rightarrow> r
                         | None \<Rightarrow> \<lparr>count_requests = 0, startTime = currentTime\<rparr>)
                  in if currentTime - startTime clientRecord > windowMs options
                     then (Inr Next,
                           table(clientId \<mapsto> \<lparr>count_requests = 1, startTime = currentTime\<rparr>))
                     else if count_requests clientRecord \<ge> max_requests options
                     then (if res = PlainObject \<or> \<not> logger then (Inl TypeError, table)
                           else (Inr (Rejected (statusCode options)
                                   (ceil_seconds
                                      (startTime clientRecord + windowMs options - currentTime))),
                                 table))
                     else (let table' = table(clientId \<mapsto>
                                 clientRecord\<lparr>count_requests := count_requests clientRecord + 1\<rparr>)
                           in if res = PlainObject then (Inl TypeError, table')
                              else (Inr Next, table')))))"

text \<open>
  The middleware: the \<open>catch\<close> block calls \<open>logger.error\<close> and then \<open>next\<close>, so
  that an exception of the body lets the request pass; where \<open>logger\<close> is not bound, the
  call of \<open>logger.error\<close> is itself a \<open>TypeError\<close>, which leaves the middleware.
\<close>

definition createLimiter ::
  "bool \<Rightarrow> limiter_options \<Rightarrow> int \<Rightarrow> request \<Rightarrow> res_object \<Rightarrow> requests
     \<Rightarrow> outcome \<times> requests" where
  "createLimiter logger options currentTime req res table =
     (case limiter_try logger options currentTime req res table of
        (Inr out, table') \<Rightarrow> (out, table')
      | (Inl err, table') \<Rightarrow> if logger then (Next, table') else (Thrown TypeError, table'))"

text \<open>
  The crawler's configuration of the limiter, and \<open>applyRateLimit\<close>. The promise that
  the method returns is resolved by the \<open>next\<close> callback: \<open>Inr True\<close> says that the
  caller is resumed, \<open>Inr False\<close> that the promise is never settled, and \<open>Inl\<close> that it
  is rejected with the exception that left the middleware. The request and the response
  that the method hands to the middleware are both the empty object.
\<close>

definition crawler_limiter_options :: limiter_options where
  "crawler_limiter_options = defaultConfig\<lparr>windowMs := 1000, max_requests := 1000\<rparr>"

definition empty_request :: request where
  "empty_request = \<lparr>ip = None, req_headers = None, connection = None, req_method = None\<rparr>"

definition applyRateLimit ::
  "bool \<Rightarrow> limiter_options \<Rightarrow> int \<Rightarrow> requests \<Rightarrow> (js_error + bool) \<times> requests" where
  "applyRateLimit logger options currentTime table =
     (case createLimiter logger options currentTime empty_request PlainObject table of
        (Next, table') \<Rightarrow> (Inr True, table')
      | (Rejected _ _, table') \<Rightarrow> (Inr False, table')
      | (Thrown err, table') \<Rightarrow> (Inl err, table'))"

text \<open>A sequence of calls, one per time stamp, with what each call gives, in order.\<close>

fun acquire_all ::
  "bool \<Rightarrow> limiter_options \<Rightarrow> int list \<Rightarrow> requests \<Rightarrow> (js_error + bool) list \<times> requests" where
  "acquire_all logger options [] table = ([], table)"
| "acquire_all logger options (t # ts) table =
     (case applyRateLimit logger options t table of
        (granted, table') \<Rightarrow>
          (case acquire_all logger options ts table' of
             (rest, table'') \<Rightarrow> (granted # rest, table'')))"

section \<open>The crawl operations\<close>

subsection \<open>crawlWebsite\<close>

text \<open>
  With a logger bound, \<open>applyRateLimit\<close> resumes its caller at once and leaves the
  limiter's table as it was (lemma \<open>applyRateLimit_grants\<close> below), so the call is an
  event of the model and nothing more. The \<open>catch\<close> block covers the whole body: it
  logs the error with the URL as given and throws a new error around its message. The
  optional \<open>options\<close> are passed on to the HTTP client and belong to \<open>http_get\<close>.
\<close>

definition crawl_failed ::
  "string \<Rightarrow> message \<Rightarrow> event list \<Rightarrow> (message + crawl_result) \<times> event list" where
  "crawl_failed u e evs = (Inl (CrawlFailed e), evs @ [LogCrawlFailed u e])"

definition crawlWebsite :: "world \<Rightarrow> string \<Rightarrow> (message + crawl_result) \<times> event list" where
  "crawlWebsite w u =
     (case validateUrl w u of
        None \<Rightarrow> crawl_failed u InvalidUrlFormat []
      | Some parsedUrl \<Rightarrow>
          (case http_get w (href parsedUrl) of
             Inl e \<Rightarrow> crawl_failed u e [Acquire, Get (href parsedUrl)]
           | Inr r \<Rightarrow>
               (case html_load w (data r) of
                  Inl e \<Rightarrow> crawl_failed u e [Acquire, Get (href parsedUrl), Load (data r)]
                | Inr doc \<Rightarrow>
                    (let md = extractMetadata doc parsedUrl;
                         detected = detectTechnologies w r
                     in case fst detected of
                          Inl e \<Rightarrow>
                            crawl_failed u e
                              ([Acquire, Get (href parsedUrl), Load (data r)] @ snd detected)
                        | Inr techs \<Rightarrow>
                            (Inr \<lparr>url = href parsedUrl, result_status = status r,
                                   result_data =
                                     \<lparr>metadata = md, technologies = techs,
                                      links = extractLinks w doc parsedUrl\<rparr>\<rparr>,
                             [Acquire, Get (href parsedUrl), Load (data r)] @ snd detected)))))"

subsection \<open>batchCrawlWebsites\<close>

record batch_result =
  success :: "crawl_result list"
  failed :: "(string \<times> message) list"

fun batch_loop ::
  "world \<Rightarrow> string list \<Rightarrow> crawl_result list \<Rightarrow> (string \<times> message) list \<Rightarrow> batch_result" where
  "batch_loop w [] results errors = \<lparr>success = results, failed = errors\<rparr>"
| "batch_loop w (u # urls) results errors =
     (case fst (crawlWebsite w u) of
        Inr result \<Rightarrow> batch_loop w urls (results @ [result]) errors
      | Inl e \<Rightarrow> batch_loop w urls results (errors @ [(u, e)]))"

definition batchCrawlWebsites :: "world \<Rightarrow> string list \<Rightarrow> batch_result" where
  "batchCrawlWebsites w urls = batch_loop w urls [] []"

subsection \<open>The website model (server/models/Website.js)\<close>

text \<open>
  \<open>website.save()\<close> runs the model's \<open>pre('save')\<close> hook, which puts \<open>https://\<close>
  in front of a domain that does not start with \<open>http\<close>, and then hands the document to
  the store.
\<close>

definition pre_save :: "website \<Rightarrow> website" where
  "pre_save site =
     (if domain site \<noteq> [] \<and> take 4 (domain site) \<noteq> ''http''
      then site\<lparr>domain := ''https://'' @ domain site\<rparr> else site)"

definition save :: "world \<Rightarrow> website \<Rightarrow> message + website" where
  "save w site =
     (case store_save w (pre_save site) of Some e \<Rightarrow> Inl e | None \<Rightarrow> Inr (pre_save site))"

text \<open>
  The model's own method for recording a crawl, \<open>updateCrawlStatus(status, meta)\<close>: it
  stamps the time and the status and, when \<open>meta.technologies\<close> is given, stores the
  technologies known before together with the new ones, each once.
\<close>

definition updateCrawlStatus ::
  "world \<Rightarrow> nat \<Rightarrow> website \<Rightarrow> string \<Rightarrow> string list option \<Rightarrow> message + website" where
  "updateCrawlStatus w now site st meta_technologies =
     save w
       (site\<lparr>lastCrawledAt := Some now,
             lastCrawlStatus := st,
             site_technologies :=
               (case meta_technologies of
                  None \<Rightarrow> site_technologies site
                | Some ts \<Rightarrow> new_Set (site_technologies site @ ts))\<rparr>)"

subsection \<open>updateWebsiteData\<close>

text \<open>
  \<open>Website.findByIdAndUpdate(id, fields)\<close> changes the stored document when there is
  one. The method returns the saved document with the crawl data, or throws the error after
  stamping the failure; the second component is the store afterwards.
\<close>

definition findByIdAndUpdate :: "store \<Rightarrow> string \<Rightarrow> (website \<Rightarrow> website) \<Rightarrow> store" where
  "findByIdAndUpdate db websiteId f =
     (case db websiteId of None \<Rightarrow> db | Some site \<Rightarrow> db(websiteId \<mapsto> f site))"

definition update_failed ::
  "nat \<Rightarrow> store \<Rightarrow> string \<Rightarrow> message \<Rightarrow> (message + website \<times> crawl_data) \<times> store" where
  "update_failed now db websiteId e =
     (Inl e,
      findByIdAndUpdate db websiteId
        (\<lambda>site. site\<lparr>lastCrawledAt := Some now, lastCrawlStatus := ''failed'', crawlError := Some e\<rparr>))"

definition updateWebsiteData ::
  "world \<Rightarrow> nat \<Rightarrow> store \<Rightarrow> string \<Rightarrow> (message + website \<times> crawl_data) \<times> store" where
  "updateWebsiteData w now db websiteId =
     (case db websiteId of
        None \<Rightarrow> update_failed now db websiteId WebsiteNotFound
      | Some site \<Rightarrow>
          (case fst (crawlWebsite w (domain site)) of
             Inl e \<Rightarrow> update_failed now db websiteId e
           | Inr result \<Rightarrow>
               (let d = result_data result;
                    site' = site\<lparr>site_technologies := technologies d,
                                 site_metadata := Some (metadata d),
                                 lastCrawledAt := Some now,
                                 lastCrawlStatus := ''success''\<rparr>
                in (case save w site' of
                      Inl e \<Rightarrow> update_failed now db websiteId e
                    | Inr saved \<Rightarrow> (Inr (saved, d), db(websiteId \<mapsto> saved))))))"

subsection \<open>deepCrawlWebsite\<close>

record crawl_state =
  visited :: "string set"
  results :: "crawl_result list"
  queue :: "(string \<times> int) list"
  trace :: "event list"

text \<open>One iteration of the while loop, on a queue that is not empty.\<close>

definition deep_step :: "world \<Rightarrow> int \<Rightarrow> crawl_state \<Rightarrow> crawl_state" where
  "deep_step w maxDepth st =
     (case queue st of
        [] \<Rightarrow> st
      | (u, depth) # rest \<Rightarrow>
          if depth > maxDepth \<or> u \<in> visited st then st\<lparr>queue := rest\<rparr>
          else (case crawlWebsite w u of
                  (Inr result, evs) \<Rightarrow>
                    (let visited' = insert u (visited st)
                     in st\<lparr>visited := visited',
                           results := results st @ [result],
                           queue := rest @ map (\<lambda>l. (link_url l, depth + 1))
                                      (filter (\<lambda>l. \<not> external l \<and> link_url l \<notin> visited')
                                         (links (result_data result))),
                           trace := trace st @ evs\<rparr>)
                | (Inl e, evs) \<Rightarrow>
                    st\<lparr>queue := rest, trace := trace st @ evs @ [LogDeepCrawlFailed u e]\<rparr>))"

text \<open>
  The weight of a queue: for each entry the number of levels left below it. An iteration
  removes one entry and adds only entries of smaller weight.
\<close>

definition levels_left :: "int \<Rightarrow> (string \<times> int) list \<Rightarrow> nat multiset" where
  "levels_left maxDepth q = mset (map (\<lambda>(u, depth). nat (maxDepth + 1 - depth)) q)"

function deep_loop :: "world \<Rightarrow> int \<Rightarrow> crawl_state \<Rightarrow> crawl_state" where
  "deep_loop w maxDepth st =
     (if queue st = [] then st else deep_loop w maxDepth (deep_step w maxDepth st))"
  by pat_completeness auto
termination
proof (relation "inv_image (mult less_than) (\<lambda>(w, maxDepth, st). levels_left maxDepth (queue st))")
  show "wf (inv_image (mult less_than)
          (\<lambda>(w, maxDepth, st). levels_left maxDepth (queue st)))"
    by (simp add: wf_mult)
next
  fix w :: world and maxDepth :: int and st :: crawl_state
  assume ne: "queue st \<noteq> []"
  then obtain u depth rest where q: "queue st = (u, depth) # rest"
    by (cases "queue st") auto
  define a where "a = nat (maxDepth + 1 - depth)"
  have "\<exists>K. levels_left maxDepth (queue (deep_step w maxDepth st)) = levels_left maxDepth rest + K
          \<and> (\<forall>b. b \<in># K \<longrightarrow> b < a)"
  proof (cases "depth > maxDepth \<or> u \<in> visited st")
    case True
    then have "queue (deep_step w maxDepth st) = rest"
      using q by (auto simp: deep_step_def)
    then show ?thesis by (intro exI[of _ "{#}"]) simp
  next
    case False
    show ?thesis
    proof (cases "crawlWebsite w u")
      case (Pair out evs)
      show ?thesis
      proof (cases out)
        case (Inl e)
        then have "queue (deep_step w maxDepth st) = rest"
          using q False Pair by (simp add: deep_step_def)
        then show ?thesis by (intro exI[of _ "{#}"]) simp
      next
        case (Inr result)
        define kids where "kids = map (\<lambda>l. (link_url l, depth + 1))
            (filter (\<lambda>l. \<not> external l \<and> link_url l \<notin> insert u (visited st))
               (links (result_data result)))"
        have "queue (deep_step w maxDepth st) = rest @ kids"
          using q False Pair Inr by (simp add: deep_step_def kids_def Let_def)
        moreover have "\<forall>b. b \<in># levels_left maxDepth kids \<longrightarrow> b < a"
          using False by (auto simp: levels_left_def kids_def a_def)
        ultimately show ?thesis
          by (intro exI[of _ "levels_left maxDepth kids"]) (simp add: levels_left_def)
      qed
    qed
  qed
  then obtain K where K: "levels_left maxDepth (queue (deep_step w maxDepth st)) = levels_left maxDepth rest + K"
    "\<forall>b. b \<in># K \<longrightarrow> b < a" by blast
  have "levels_left maxDepth (queue st) = add_mset a (levels_left maxDepth rest)"
    using q by (simp add: levels_left_def a_def)
  with K have "(levels_left maxDepth (queue (deep_step w maxDepth st)), levels_left maxDepth (queue st)) \<in> mult1 less_than"
    by (auto simp: mult1_def)
  then show "((w, maxDepth, deep_step w maxDepth st), (w, maxDepth, st))
      \<in> inv_image (mult less_than) (\<lambda>(w, maxDepth, st). levels_left maxDepth (queue st))"
    by (simp add: mult_def)
qed

declare deep_loop.simps [simp del]

text \<open>
  The method starts from an empty visited set, an empty result array and the queue holding
  the base URL at depth 0, and returns the result array.
\<close>

definition deep_run :: "world \<Rightarrow> string \<Rightarrow> int \<Rightarrow> crawl_state" where
  "deep_run w baseUrl maxDepth =
     deep_loop w maxDepth \<lparr>visited = {}, results = [], queue = [(baseUrl, 0)], trace = []\<rparr>"


text \<open>The events of one kind that a list of events holds, in order.\<close>

definition fetched :: "event list \<Rightarrow> string list" where
  "fetched evs = concat (map (\<lambda>ev. case ev of Get h \<Rightarrow> [h] | _ \<Rightarrow> []) evs)"

definition loads :: "event list \<Rightarrow> payload list" where
  "loads evs = concat (map (\<lambda>ev. case ev of Load b \<Rightarrow> [b] | _ \<Rightarrow> []) evs)"

definition crawl_failures :: "event list \<Rightarrow> (string \<times> message) list" where
  "crawl_failures evs =
     concat (map (\<lambda>ev. case ev of LogCrawlFailed u e \<Rightarrow> [(u, e)] | _ \<Rightarrow> []) evs)"

definition deep_failures :: "event list \<Rightarrow> (string \<times> message) list" where
  "deep_failures evs =
     concat (map (\<lambda>ev. case ev of LogDeepCrawlFailed u e \<Rightarrow> [(u, e)] | _ \<Rightarrow> []) evs)"


section \<open>A small site\<close>

text \<open>
  One concrete world, on which the statements below are run: a shop whose home page links
  to itself, twice to a page that times out and once to another host, and a page in a
  directory with a relative link, an anchor without target and an anchor with a malformed
  target. The URL class also parses \<open>foo:a//b\<close>, a URL with an opaque path.
\<close>

definition shop_url :: "string \<Rightarrow> string \<Rightarrow> string option \<Rightarrow> URL" where
  "shop_url s p frag =
     \<lparr>url_scheme = s, username = [], password = [], url_host = Some ''shop.example.com'',
      url_port = None, opaque_path = False, url_path = p, url_query = None,
      url_fragment = frag\<rparr>"

definition cdn_url :: URL where
  "cdn_url =
     \<lparr>url_scheme = ''https'', username = [], password = [], url_host = Some ''cdn.example.net'',
      url_port = None, opaque_path = False, url_path = ''/'', url_query = None,
      url_fragment = None\<rparr>"

definition foo_url :: URL where
  "foo_url =
     \<lparr>url_scheme = ''foo'', username = [], password = [], url_host = None,
      url_port = None, opaque_path = True, url_path = ''a//b'', url_query = None,
      url_fragment = None\<rparr>"

definition home_html :: string where
  "home_html = ''<title> Shop </title><script src=/js/vue.min.js></script><a href=/>home</a><a href=/x>one</a><a href=/x>two</a><a href=https://cdn.example.net/>cdn</a>''"

definition home_doc :: document where
  "home_doc =
     [\<lparr>tag = ''title'', attrs = [], text_content = '' Shop ''\<rparr>,
      \<lparr>tag = ''script'', attrs = [(''src'', ''/js/vue.min.js'')], text_content = []\<rparr>,
      \<lparr>tag = ''a'', attrs = [(''href'', ''/'')], text_content = ''home''\<rparr>,
      \<lparr>tag = ''a'', attrs = [(''href'', ''/x'')], text_content = ''one''\<rparr>,
      \<lparr>tag = ''a'', attrs = [(''href'', ''/x'')], text_content = ''two''\<rparr>,
      \<lparr>tag = ''a'', attrs = [(''href'', ''https://cdn.example.net/'')], text_content = ''cdn''\<rparr>]"

definition page_html :: string where
  "page_html = ''<a href=b.html>next</a><a>none</a><a href=http://[>bad</a>''"

definition page_doc :: document where
  "page_doc =
     [\<lparr>tag = ''a'', attrs = [(''href'', ''b.html'')], text_content = ''next''\<rparr>,
      \<lparr>tag = ''a'', attrs = [], text_content = ''none''\<rparr>,
      \<lparr>tag = ''a'', attrs = [(''href'', ''http://['')], text_content = ''bad''\<rparr>]"

definition timeout_error :: message where
  "timeout_error = ClientError ''timeout of 10000ms exceeded''"

definition shop :: world where
  "shop =
     \<lparr>url_parse = map_of
        [(''https://shop.example.com/'', shop_url ''https'' ''/'' None),
         (''http://shop.example.com/'', shop_url ''http'' ''/'' None),
         (''https://shop.example.com/x'', shop_url ''https'' ''/x'' None),
         (''https://shop.example.com/b.html'', shop_url ''https'' ''/b.html'' None),
         (''https://shop.example.com/dir/page.html'', shop_url ''https'' ''/dir/page.html'' None),
         (''http://shop.example.com//a//b#top'', shop_url ''http'' ''//a//b'' (Some ''top'')),
         (''foo:a//b'', foo_url)],
      url_resolve = (\<lambda>h base. map_of
        [((''/'', ''https://shop.example.com''), shop_url ''https'' ''/'' None),
         ((''/x'', ''https://shop.example.com''), shop_url ''https'' ''/x'' None),
         ((''https://cdn.example.net/'', ''https://shop.example.com''), cdn_url),
         ((''b.html'', ''https://shop.example.com''), shop_url ''https'' ''/b.html'' None),
         ((''b.html'', ''https://shop.example.com/dir/page.html''),
            shop_url ''https'' ''/dir/b.html'' None)] (h, base)),
      http_get = (\<lambda>h.
        if h = ''https://shop.example.com/''
        then Inr \<lparr>status = 200, headers = [''server'' \<mapsto> ''nginx''], data = Text home_html\<rparr>
        else if h = ''https://shop.example.com/dir/page.html''
        then Inr \<lparr>status = 200, headers = Map.empty, data = Text page_html\<rparr>
        else Inl timeout_error),
      html_load = (\<lambda>b.
        case b of
          Text t \<Rightarrow> Inr (if t = home_html then home_doc else if t = page_html then page_doc else [])
        | Parsed v \<Rightarrow> Inl (ParserError ''not a text'')),
      store_save = (\<lambda>site. None)\<rparr>"

text \<open>The same site later, when the home page no longer sends a \<open>Server\<close> header.\<close>

definition shop_later :: world where
  "shop_later =
     shop\<lparr>http_get := (\<lambda>h.
        if h = ''https://shop.example.com/''
        then Inr \<lparr>status = 200, headers = Map.empty, data = Text home_html\<rparr>
        else Inl timeout_error)\<rparr>"

definition shop_site :: website where
  "shop_site =
     \<lparr>domain = ''https://shop.example.com/'', site_technologies = [], site_metadata = None,
      lastCrawledAt = None, lastCrawlStatus = ''success'', crawlError = None\<rparr>"

text \<open>The state in which a deep crawl of the shop's home page starts.\<close>

definition shop_start :: crawl_state where
  "shop_start =
     \<lparr>visited = {}, results = [], queue = [(''https://shop.example.com/'', 0)], trace = []\<rparr>"

section \<open>Properties\<close>

subsection \<open>Normalisation of URLs\<close>








subsection \<open>Metadata\<close>

lemma or_else_None: "or_else (first_attr [] name) d = d"
  by (simp add: or_else_def first_attr_def)

lemma trim_Nil: "trim [] = []"
  by code_simp

text \<open>
  Claim C7, as the code has it. The extraction is a total function whose eight fields are
  strings. A field whose element is absent from the document is the empty string, except
  \<open>canonical\<close>: without a \<open>link[rel="canonical"]\<close> element it is the \<open>href\<close>
  of the page's own URL.
\<close>

theorem extractMetadata_absent_fields:
  "(select_tag doc ''title'' = [] \<longrightarrow> title (extractMetadata doc parsedUrl) = [])
   \<and> (select_attr doc ''meta'' ''name'' ''description'' = []
        \<longrightarrow> description (extractMetadata doc parsedUrl) = [])
   \<and> (select_attr doc ''meta'' ''name'' ''keywords'' = []
        \<longrightarrow> keywords_meta (extractMetadata doc parsedUrl) = [])
   \<and> (select_attr doc ''link'' ''rel'' ''canonical'' = []
        \<longrightarrow> canonical (extractMetadata doc parsedUrl) = href parsedUrl)
   \<and> (select_attr doc ''meta'' ''name'' ''viewport'' = []
        \<longrightarrow> viewport (extractMetadata doc parsedUrl) = [])
   \<and> (select_attr doc ''meta'' ''property'' ''og:title'' = []
        \<longrightarrow> ogTitle (extractMetadata doc parsedUrl) = [])
   \<and> (select_attr doc ''meta'' ''property'' ''og:description'' = []
        \<longrightarrow> ogDescription (extractMetadata doc parsedUrl) = [])
   \<and> (select_attr doc ''meta'' ''property'' ''og:image'' = []
        \<longrightarrow> ogImage (extractMetadata doc parsedUrl) = [])"
  by (simp add: extractMetadata_def or_else_None text_of_def trim_Nil)

theorem extractMetadata_absent_fields_witness:
  "select_tag page_doc ''title'' = []
   \<and> select_attr page_doc ''meta'' ''name'' ''description'' = []
   \<and> select_attr page_doc ''meta'' ''name'' ''keywords'' = []
   \<and> select_attr page_doc ''link'' ''rel'' ''canonical'' = []
   \<and> select_attr page_doc ''meta'' ''name'' ''viewport'' = []
   \<and> select_attr page_doc ''meta'' ''property'' ''og:title'' = []
   \<and> select_attr page_doc ''meta'' ''property'' ''og:description'' = []
   \<and> select_attr page_doc ''meta'' ''property'' ''og:image'' = []
   \<and> extractMetadata page_doc (shop_url ''https'' ''/dir/page.html'' None)
       = \<lparr>title = [], description = [], keywords_meta = [],
          canonical = ''https://shop.example.com/dir/page.html'', viewport = [],
          ogTitle = [], ogDescription = [], ogImage = []\<rparr>"
proof -
  have sel: "select_tag page_doc ''title'' = []"
    "select_attr page_doc ''meta'' ''name'' ''description'' = []"
    "select_attr page_doc ''meta'' ''name'' ''keywords'' = []"
    "select_attr page_doc ''link'' ''rel'' ''canonical'' = []"
    "select_attr page_doc ''meta'' ''name'' ''viewport'' = []"
    "select_attr page_doc ''meta'' ''property'' ''og:title'' = []"
    "select_attr page_doc ''meta'' ''property'' ''og:description'' = []"
    "select_attr page_doc ''meta'' ''property'' ''og:image'' = []"
    by code_simp+
  have h: "href (shop_url ''https'' ''/dir/page.html'' None) = ''https://shop.example.com/dir/page.html''"
    by code_simp
  have "extractMetadata page_doc (shop_url ''https'' ''/dir/page.html'' None)
       = \<lparr>title = [], description = [], keywords_meta = [],
          canonical = ''https://shop.example.com/dir/page.html'', viewport = [],
          ogTitle = [], ogDescription = [], ogImage = []\<rparr>"
    using extractMetadata_absent_fields [of page_doc "shop_url ''https'' ''/dir/page.html'' None"] sel h
    by (intro metadata.equality) simp_all
  with sel show ?thesis by simp
qed

text \<open>
  Claim C7 as stated fails: a page without a canonical link gets its own URL, not the
  empty string, as \<open>canonical\<close>.
\<close>

theorem extractMetadata_canonical_fallback:
  "select_attr page_doc ''link'' ''rel'' ''canonical'' = []
   \<and> canonical (extractMetadata page_doc (shop_url ''https'' ''/dir/page.html'' None))
       = ''https://shop.example.com/dir/page.html''
   \<and> canonical (extractMetadata page_doc (shop_url ''https'' ''/dir/page.html'' None)) \<noteq> []"
  by code_simp

subsection \<open>Links\<close>

lemma each_anchor_concat:
  "each_anchor w baseUrl parsedUrl els ls
     = ls @ concat (map (link_of_anchor w baseUrl parsedUrl) els)"
  by (induction els arbitrary: ls) simp_all

lemma extractLinks_concat:
  "extractLinks w doc parsedUrl
     = concat (map (link_of_anchor w (protocol parsedUrl @ ''//'' @ host parsedUrl) parsedUrl)
         (select_tag doc ''a''))"
  by (simp add: extractLinks_def each_anchor_concat)

lemma link_of_anchor_resolved:
  assumes "attr el ''href'' = Some h" "h \<noteq> []" "url_resolve w h baseUrl = Some u"
  shows "link_of_anchor w baseUrl parsedUrl el
           = [\<lparr>link_url = href u, link_text = trim (text_content el),
               external = (hostname u \<noteq> hostname parsedUrl)\<rparr>]"
  using assms by (simp add: link_of_anchor_def)

lemma link_of_anchor_member:
  assumes "l \<in> set (link_of_anchor w baseUrl parsedUrl el)"
  shows "\<exists>h u. attr el ''href'' = Some h \<and> h \<noteq> [] \<and> url_resolve w h baseUrl = Some u
           \<and> l = \<lparr>link_url = href u, link_text = trim (text_content el),
                   external = (hostname u \<noteq> hostname parsedUrl)\<rparr>"
proof (cases "attr el ''href''")
  case None
  with assms show ?thesis by (simp add: link_of_anchor_def)
next
  case (Some h)
  show ?thesis
  proof (cases "h = []")
    case True
    with assms Some show ?thesis by (simp add: link_of_anchor_def)
  next
    case False
    show ?thesis
    proof (cases "url_resolve w h baseUrl")
      case None
      with assms Some False show ?thesis by (simp add: link_of_anchor_def)
    next
      case (Some u)
      with assms \<open>attr el ''href'' = Some h\<close> False show ?thesis
        by (cases "hostname u = hostname parsedUrl") (simp_all add: link_of_anchor_def)
    qed
  qed
qed

text \<open>
  Claim C8, as the code has it. The base against which targets are resolved is the text
  \<open>protocol//host\<close> of the page's URL, without its path. Every anchor with a non-empty
  \<open>href\<close> that resolves against this base yields a link whose URL is the \<open>href\<close> of
  the resolved URL, with the trimmed anchor text, marked external when the host names
  differ; every link returned comes from such an anchor, so an anchor without target or
  with a target that does not resolve is skipped, and nothing is reported for it.
\<close>

theorem extractLinks_resolves_against_origin:
  "(\<forall>el \<in> set doc. \<forall>h u.
       tag el = ''a'' \<and> attr el ''href'' = Some h \<and> h \<noteq> []
       \<and> url_resolve w h (protocol parsedUrl @ ''//'' @ host parsedUrl) = Some u
       \<longrightarrow> \<lparr>link_url = href u, link_text = trim (text_content el),
              external = (hostname u \<noteq> hostname parsedUrl)\<rparr>
            \<in> set (extractLinks w doc parsedUrl))
   \<and> (\<forall>l \<in> set (extractLinks w doc parsedUrl). \<exists>el \<in> set doc. \<exists>h u.
         tag el = ''a'' \<and> attr el ''href'' = Some h \<and> h \<noteq> []
         \<and> url_resolve w h (protocol parsedUrl @ ''//'' @ host parsedUrl) = Some u
         \<and> l = \<lparr>link_url = href u, link_text = trim (text_content el),
                 external = (hostname u \<noteq> hostname parsedUrl)\<rparr>)"
proof (intro conjI ballI allI impI)
  fix el h u
  assume el: "el \<in> set doc"
    and a: "tag el = ''a'' \<and> attr el ''href'' = Some h \<and> h \<noteq> []
       \<and> url_resolve w h (protocol parsedUrl @ ''//'' @ host parsedUrl) = Some u"
  from el a have "el \<in> set (select_tag doc ''a'')"
    by (simp add: select_tag_def)
  moreover from a have "link_of_anchor w (protocol parsedUrl @ ''//'' @ host parsedUrl) parsedUrl el
      = [\<lparr>link_url = href u, link_text = trim (text_content el),
               external = (hostname u \<noteq> hostname parsedUrl)\<rparr>]"
    by (simp add: link_of_anchor_resolved)
  ultimately show "\<lparr>link_url = href u, link_text = trim (text_content el),
              external = (hostname u \<noteq> hostname parsedUrl)\<rparr>
            \<in> set (extractLinks w doc parsedUrl)"
    unfolding extractLinks_concat by force
next
  fix l
  assume "l \<in> set (extractLinks w doc parsedUrl)"
  then obtain el where el: "el \<in> set (select_tag doc ''a'')"
    and l: "l \<in> set (link_of_anchor w (protocol parsedUrl @ ''//'' @ host parsedUrl) parsedUrl el)"
    unfolding extractLinks_concat by auto
  from el have "el \<in> set doc" "tag el = ''a''"
    by (simp_all add: select_tag_def)
  with link_of_anchor_member [OF l]
  show "\<exists>el \<in> set doc. \<exists>h u.
         tag el = ''a'' \<and> attr el ''href'' = Some h \<and> h \<noteq> []
         \<and> url_resolve w h (protocol parsedUrl @ ''//'' @ host parsedUrl) = Some u
         \<and> l = \<lparr>link_url = href u, link_text = trim (text_content el),
                 external = (hostname u \<noteq> hostname parsedUrl)\<rparr>"
    by blast
qed

lemma shop_page_links:
  "extractLinks shop page_doc (shop_url ''https'' ''/dir/page.html'' None)
     = [\<lparr>link_url = ''https://shop.example.com/b.html'', link_text = ''next'', external = False\<rparr>]"
  by code_simp

theorem extractLinks_resolves_against_origin_witness:
  "\<lparr>tag = ''a'', attrs = [(''href'', ''b.html'')], text_content = ''next''\<rparr> \<in> set page_doc
   \<and> url_resolve shop ''b.html'' ''https://shop.example.com''
       = Some (shop_url ''https'' ''/b.html'' None)
   \<and> \<lparr>link_url = ''https://shop.example.com/b.html'', link_text = ''next'', external = False\<rparr>
       \<in> set (extractLinks shop page_doc (shop_url ''https'' ''/dir/page.html'' None))
   \<and> length (extractLinks shop page_doc (shop_url ''https'' ''/dir/page.html'' None)) = 1"
proof -
  let ?el = "\<lparr>tag = ''a'', attrs = [(''href'', ''b.html'')], text_content = ''next''\<rparr>"
  let ?p = "shop_url ''https'' ''/dir/page.html'' None"
  have el: "?el \<in> set page_doc"
    by (simp add: page_doc_def)
  have base: "protocol ?p @ ''//'' @ host ?p = ''https://shop.example.com''"
    by code_simp
  have res: "url_resolve shop ''b.html'' ''https://shop.example.com''
       = Some (shop_url ''https'' ''/b.html'' None)"
    by code_simp
  have hy: "tag ?el = ''a'' \<and> attr ?el ''href'' = Some ''b.html'' \<and> ''b.html'' \<noteq> []
       \<and> url_resolve shop ''b.html'' (protocol ?p @ ''//'' @ host ?p)
           = Some (shop_url ''https'' ''/b.html'' None)"
    unfolding base using res by (simp add: attr_def)
  have "\<lparr>link_url = href (shop_url ''https'' ''/b.html'' None), link_text = trim (text_content ?el),
              external = (hostname (shop_url ''https'' ''/b.html'' None) \<noteq> hostname ?p)\<rparr>
            \<in> set (extractLinks shop page_doc ?p)"
    using extractLinks_resolves_against_origin [of page_doc shop ?p] el hy by blast
  moreover have "href (shop_url ''https'' ''/b.html'' None) = ''https://shop.example.com/b.html''"
    by code_simp
  moreover have "trim (text_content ?el) = ''next''"
    by code_simp
  moreover have "hostname (shop_url ''https'' ''/b.html'' None) = hostname ?p"
    by code_simp
  ultimately show ?thesis
    using el res shop_page_links by simp
qed

lemma shop_page_resolution:
  "map_option href
     (url_resolve shop ''b.html'' (href (shop_url ''https'' ''/dir/page.html'' None)))
     = Some ''https://shop.example.com/dir/b.html''"
  by code_simp

text \<open>
  Claim C8 as stated fails: on the page \<open>https://shop.example.com/dir/page.html\<close> the
  relative reference \<open>b.html\<close> resolves against the page's URL to
  \<open>https://shop.example.com/dir/b.html\<close>, and the link extracted is
  \<open>https://shop.example.com/b.html\<close>.
\<close>

theorem extractLinks_ignores_page_path:
  "map link_url (extractLinks shop page_doc (shop_url ''https'' ''/dir/page.html'' None))
     = [''https://shop.example.com/b.html'']
   \<and> map_option href
        (url_resolve shop ''b.html'' (href (shop_url ''https'' ''/dir/page.html'' None)))
       = Some ''https://shop.example.com/dir/b.html''"
  by (simp add: shop_page_links shop_page_resolution)

subsection \<open>One visit\<close>

lemma detectTechnologies_loaded:
  assumes "html_load w (data r) = Inr doc"
  shows "\<exists>techs. detectTechnologies w r = (Inr techs, [Load (data r)])"
  using assms by (simp add: detectTechnologies_def)

lemma crawlWebsite_success:
  assumes "validateUrl w u = Some p" "http_get w (href p) = Inr r"
    and "html_load w (data r) = Inr doc"
  shows "\<exists>techs. crawlWebsite w u =
           (Inr \<lparr>url = href p, result_status = status r,
                  result_data =
                    \<lparr>metadata = extractMetadata doc p, technologies = techs,
                     links = extractLinks w doc p\<rparr>\<rparr>,
            [Acquire, Get (href p), Load (data r), Load (data r)])"
  using assms detectTechnologies_loaded [OF assms(3)]
  by (auto simp: crawlWebsite_def Let_def)

lemma crawlWebsite_Inr:
  assumes "fst (crawlWebsite w u) = Inr res"
  shows "\<exists>p r doc. validateUrl w u = Some p \<and> http_get w (href p) = Inr r
           \<and> html_load w (data r) = Inr doc"
proof (cases "validateUrl w u")
  case None
  with assms show ?thesis by (simp add: crawlWebsite_def crawl_failed_def)
next
  case (Some p)
  show ?thesis
  proof (cases "http_get w (href p)")
    case (Inl e)
    with assms Some show ?thesis by (simp add: crawlWebsite_def crawl_failed_def)
  next
    case (Inr r)
    with assms Some show ?thesis
      by (cases "html_load w (data r)") (simp_all add: crawlWebsite_def crawl_failed_def)
  qed
qed


text \<open>
  Claim C9, as the code has it. On a successful visit the body is parsed twice:
  \<open>crawlWebsite\<close> loads it once and hands that one document to both
  \<open>extractMetadata\<close> and \<open>extractLinks\<close>, and \<open>detectTechnologies\<close> loads the same
  body a second time for itself.
\<close>

theorem crawlWebsite_loads_body_twice:
  assumes "fst (crawlWebsite w u) = Inr res"
  shows "\<exists>p r doc. validateUrl w u = Some p \<and> http_get w (href p) = Inr r
           \<and> html_load w (data r) = Inr doc
           \<and> loads (snd (crawlWebsite w u)) = [data r, data r]
           \<and> metadata (result_data res) = extractMetadata doc p
           \<and> links (result_data res) = extractLinks w doc p"
proof -
  from crawlWebsite_Inr [OF assms] obtain p r doc
    where pr: "validateUrl w u = Some p" "http_get w (href p) = Inr r"
      "html_load w (data r) = Inr doc" by blast
  from crawlWebsite_success [OF pr] assms
  have "loads (snd (crawlWebsite w u)) = [data r, data r]"
    and "metadata (result_data res) = extractMetadata doc p"
    and "links (result_data res) = extractLinks w doc p"
    by (auto simp: loads_def)
  with pr show ?thesis by blast
qed

lemma shop_crawl_page:
  "crawlWebsite shop ''https://shop.example.com/dir/page.html'' =
     (Inr \<lparr>url = ''https://shop.example.com/dir/page.html'', result_status = 200,
            result_data =
              \<lparr>metadata =
                 \<lparr>title = [], description = [], keywords_meta = [],
                  canonical = ''https://shop.example.com/dir/page.html'', viewport = [],
                  ogTitle = [], ogDescription = [], ogImage = []\<rparr>,
               technologies = [],
               links = [\<lparr>link_url = ''https://shop.example.com/b.html'', link_text = ''next'',
                         external = False\<rparr>]\<rparr>\<rparr>,
      [Acquire, Get ''https://shop.example.com/dir/page.html'', Load (Text page_html),
       Load (Text page_html)])"
  by code_simp

lemma shop_crawl_x:
  "crawlWebsite shop ''https://shop.example.com/x'' =
     (Inl (CrawlFailed timeout_error),
      [Acquire, Get ''https://shop.example.com/x'',
       LogCrawlFailed ''https://shop.example.com/x'' timeout_error])"
  by code_simp

lemma shop_crawl_home:
  "crawlWebsite shop ''https://shop.example.com/'' =
     (Inr \<lparr>url = ''https://shop.example.com/'', result_status = 200,
            result_data =
              \<lparr>metadata =
                 \<lparr>title = ''Shop'', description = [], keywords_meta = [],
                  canonical = ''https://shop.example.com/'', viewport = [],
                  ogTitle = [], ogDescription = [], ogImage = []\<rparr>,
               technologies = [''nginx'', ''Vue''],
               links = [\<lparr>link_url = ''https://shop.example.com/'', link_text = ''home'',
                         external = False\<rparr>,
                        \<lparr>link_url = ''https://shop.example.com/x'', link_text = ''one'',
                         external = False\<rparr>,
                        \<lparr>link_url = ''https://shop.example.com/x'', link_text = ''two'',
                         external = False\<rparr>,
                        \<lparr>link_url = ''https://cdn.example.net/'', link_text = ''cdn'',
                         external = True\<rparr>]\<rparr>\<rparr>,
      [Acquire, Get ''https://shop.example.com/'', Load (Text home_html),
       Load (Text home_html)])"
  by code_simp

theorem crawlWebsite_loads_body_twice_witness:
  "(\<exists>res. fst (crawlWebsite shop ''https://shop.example.com/dir/page.html'') = Inr res)
   \<and> (\<exists>p r. validateUrl shop ''https://shop.example.com/dir/page.html'' = Some p
          \<and> http_get shop (href p) = Inr r
          \<and> loads (snd (crawlWebsite shop ''https://shop.example.com/dir/page.html''))
              = [data r, data r])
   \<and> loads (snd (crawlWebsite shop ''https://shop.example.com/dir/page.html''))
       = [Text page_html, Text page_html]"
proof -
  obtain res where res: "fst (crawlWebsite shop ''https://shop.example.com/dir/page.html'') = Inr res"
    by (simp add: shop_crawl_page)
  from crawlWebsite_loads_body_twice [OF res]
  have "\<exists>p r. validateUrl shop ''https://shop.example.com/dir/page.html'' = Some p
          \<and> http_get shop (href p) = Inr r
          \<and> loads (snd (crawlWebsite shop ''https://shop.example.com/dir/page.html''))
              = [data r, data r]"
    by blast
  moreover have "loads (snd (crawlWebsite shop ''https://shop.example.com/dir/page.html''))
       = [Text page_html, Text page_html]"
    by (simp add: shop_crawl_page loads_def)
  ultimately show ?thesis using res by blast
qed

text \<open>
  Claim C9 as stated fails: the one successful visit of the page
  \<open>https://shop.example.com/dir/page.html\<close> loads its body two times, not once.
\<close>

theorem crawlWebsite_second_parse:
  "length (loads (snd (crawlWebsite shop ''https://shop.example.com/dir/page.html''))) = 2
   \<and> snd (detectTechnologies shop \<lparr>status = 200, headers = Map.empty, data = Text page_html\<rparr>)
       = [Load (Text page_html)]"
  by (simp add: shop_crawl_page loads_def detectTechnologies_def split: sum.split)

subsection \<open>Batches\<close>

text \<open>What each URL of a batch contributes to the two lists.\<close>

lemma batch_loop_split:
  "batch_loop w urls rs es =
     \<lparr>success = rs @ concat (map (\<lambda>u. case fst (crawlWebsite w u) of
                                         Inr r \<Rightarrow> [r] | Inl e \<Rightarrow> []) urls),
      failed = es @ concat (map (\<lambda>u. case fst (crawlWebsite w u) of
                                        Inr r \<Rightarrow> [] | Inl e \<Rightarrow> [(u, e)]) urls)\<rparr>"
proof (induction urls arbitrary: rs es)
  case Nil
  show ?case by simp
next
  case (Cons u urls)
  show ?case by (cases "fst (crawlWebsite w u)") (simp_all add: Cons.IH)
qed

lemma concat_map_all_single:
  assumes "\<forall>x \<in> set xs. f x = [g x]"
  shows "concat (map f xs) = map g xs"
  using assms by (induction xs) simp_all

lemma concat_map_all_empty:
  assumes "\<forall>x \<in> set xs. f x = []"
  shows "concat (map f xs) = []"
  using assms by (induction xs) simp_all

text \<open>
  Claim C5. In a batch of N URLs of which the one at position i cannot be crawled and every
  other can, the success list has N - 1 entries, which are the results of the other URLs in
  their order, and the failure list is the single entry naming the URL at position i with
  its error.
\<close>

theorem batchCrawlWebsites_isolates_failure:
  assumes i: "i < length urls"
    and bad: "fst (crawlWebsite w (urls ! i)) = Inl e"
    and good: "\<forall>j < length urls. j \<noteq> i \<longrightarrow> (\<exists>r. fst (crawlWebsite w (urls ! j)) = Inr r)"
  shows "length (success (batchCrawlWebsites w urls)) = length urls - 1
         \<and> success (batchCrawlWebsites w urls)
             = map (\<lambda>u. projr (fst (crawlWebsite w u))) (take i urls @ drop (Suc i) urls)
         \<and> failed (batchCrawlWebsites w urls) = [(urls ! i, e)]"
proof -
  let ?s = "\<lambda>u. case fst (crawlWebsite w u) of Inr r \<Rightarrow> [r] | Inl e \<Rightarrow> []"
  let ?f = "\<lambda>u. case fst (crawlWebsite w u) of Inr r \<Rightarrow> [] | Inl e \<Rightarrow> [(u, e)]"
  let ?others = "take i urls @ drop (Suc i) urls"
  have split: "urls = take i urls @ urls ! i # drop (Suc i) urls"
    using i by (simp add: id_take_nth_drop)
  have ok: "\<exists>r. fst (crawlWebsite w u) = Inr r" if "u \<in> set ?others" for u
  proof -
    from that consider "u \<in> set (take i urls)" | "u \<in> set (drop (Suc i) urls)" by auto
    then show ?thesis
    proof cases
      case 1
      then obtain j where "j < i" "j < length urls" "u = urls ! j"
        by (auto simp: in_set_conv_nth)
      with good show ?thesis by auto
    next
      case 2
      then obtain k where "k < length urls - Suc i" "u = urls ! (Suc i + k)"
        by (auto simp: in_set_conv_nth)
      then have "Suc i + k < length urls" "Suc i + k \<noteq> i" by auto
      with good \<open>u = urls ! (Suc i + k)\<close> show ?thesis by blast
    qed
  qed
  have s_others: "concat (map ?s ?others) = map (\<lambda>u. projr (fst (crawlWebsite w u))) ?others"
    by (rule concat_map_all_single) (use ok in force)
  have f_others: "concat (map ?f ?others) = []"
    by (rule concat_map_all_empty) (use ok in force)
  have "concat (map ?s urls) = concat (map ?s (take i urls)) @ ?s (urls ! i)
          @ concat (map ?s (drop (Suc i) urls))"
    by (subst split) simp
  then have s: "concat (map ?s urls) = concat (map ?s ?others)"
    using bad by simp
  have "concat (map ?f urls) = concat (map ?f (take i urls)) @ ?f (urls ! i)
          @ concat (map ?f (drop (Suc i) urls))"
    by (subst split) simp
  moreover have "concat (map ?f (take i urls)) = []" "concat (map ?f (drop (Suc i) urls)) = []"
    using f_others by simp_all
  ultimately have f: "concat (map ?f urls) = [(urls ! i, e)]"
    using bad by simp
  have len: "length ?others = length urls - 1"
    using i by simp
  show ?thesis
    unfolding batchCrawlWebsites_def batch_loop_split
    using s s_others f len by simp
qed

theorem batchCrawlWebsites_isolates_failure_witness:
  "fst (crawlWebsite shop ''https://shop.example.com/x'') = Inl (CrawlFailed timeout_error)
   \<and> (\<exists>r. fst (crawlWebsite shop ''https://shop.example.com/'') = Inr r)
   \<and> (\<exists>r. fst (crawlWebsite shop ''https://shop.example.com/dir/page.html'') = Inr r)
   \<and> length (success (batchCrawlWebsites shop
        [''https://shop.example.com/'', ''https://shop.example.com/x'',
         ''https://shop.example.com/dir/page.html''])) = 2
   \<and> failed (batchCrawlWebsites shop
        [''https://shop.example.com/'', ''https://shop.example.com/x'',
         ''https://shop.example.com/dir/page.html''])
       = [(''https://shop.example.com/x'', CrawlFailed timeout_error)]"
proof -
  let ?urls = "[''https://shop.example.com/'', ''https://shop.example.com/x'',
         ''https://shop.example.com/dir/page.html'']"
  have i: "(1::nat) < length ?urls" by simp
  have bad: "fst (crawlWebsite shop (?urls ! 1)) = Inl (CrawlFailed timeout_error)"
    by (simp add: shop_crawl_x)
  have good: "\<forall>j < length ?urls. j \<noteq> 1 \<longrightarrow> (\<exists>r. fst (crawlWebsite shop (?urls ! j)) = Inr r)"
  proof (intro allI impI)
    fix j :: nat
    assume "j < length ?urls" "j \<noteq> 1"
    then have "j = 0 \<or> j = 2" by auto
    then show "\<exists>r. fst (crawlWebsite shop (?urls ! j)) = Inr r"
      by (auto simp: shop_crawl_home shop_crawl_page)
  qed
  from batchCrawlWebsites_isolates_failure [OF i bad good]
  have "length (success (batchCrawlWebsites shop ?urls)) = 2"
    and "failed (batchCrawlWebsites shop ?urls) = [(''https://shop.example.com/x'', CrawlFailed timeout_error)]"
    by simp_all
  then show ?thesis
    by (simp add: shop_crawl_x shop_crawl_home shop_crawl_page)
qed

subsection \<open>The rate limiter\<close>

lemma getClientIdentifier_empty: "getClientIdentifier empty_request = Inl TypeError"
  by (simp add: getClientIdentifier_def empty_request_def truthy_def)

lemma applyRateLimit_grants: "applyRateLimit True options t table = (Inr True, table)"
  by (simp add: applyRateLimit_def createLimiter_def limiter_try_def getClientIdentifier_empty)

lemma applyRateLimit_unbound: "applyRateLimit False options t table = (Inl TypeError, table)"
  by (simp add: applyRateLimit_def createLimiter_def limiter_try_def getClientIdentifier_empty)

lemma acquire_all_bound:
  "acquire_all True options ts table = (replicate (length ts) (Inr True), table)"
  by (induction ts arbitrary: table) (simp_all add: applyRateLimit_grants)

lemma acquire_all_unbound:
  "acquire_all False options ts table = (replicate (length ts) (Inl TypeError), table)"
  by (induction ts arbitrary: table) (simp_all add: applyRateLimit_unbound)

text \<open>
  Claim C4, at an input where the code breaks it: a limiter with a capacity of one call per
  second and three calls of \<open>applyRateLimit\<close> at the same instant, on an empty table. The
  claim has the second and the third call wait for the window to reset. In the code, with
  a logger bound, all three are granted at that instant and the table is still empty
  afterwards, so the limiter has counted none of them: reading the client's identifier from
  the empty request throws, and the \<open>catch\<close> block lets the call pass. With \<open>logger\<close>
  as the module binds it, the \<open>catch\<close> block throws in its turn and every call is an
  error.
\<close>

theorem applyRateLimit_capacity_not_applied:
  "acquire_all True (defaultConfig\<lparr>windowMs := 1000, max_requests := 1\<rparr>) [0, 0, 0] Map.empty
     = ([Inr True, Inr True, Inr True], Map.empty)
   \<and> acquire_all False (defaultConfig\<lparr>windowMs := 1000, max_requests := 1\<rparr>) [0, 0, 0] Map.empty
       = ([Inl TypeError, Inl TypeError, Inl TypeError], Map.empty)"
  by (simp add: applyRateLimit_grants applyRateLimit_unbound)

subsection \<open>Persisting a crawl\<close>

lemma shop_later_crawl_home:
  "fst (crawlWebsite shop_later ''https://shop.example.com/'') =
     Inr \<lparr>url = ''https://shop.example.com/'', result_status = 200,
            result_data =
              \<lparr>metadata =
                 \<lparr>title = ''Shop'', description = [], keywords_meta = [],
                  canonical = ''https://shop.example.com/'', viewport = [],
                  ogTitle = [], ogDescription = [], ogImage = []\<rparr>,
               technologies = [''Vue''],
               links = [\<lparr>link_url = ''https://shop.example.com/'', link_text = ''home'',
                         external = False\<rparr>,
                        \<lparr>link_url = ''https://shop.example.com/x'', link_text = ''one'',
                         external = False\<rparr>,
                        \<lparr>link_url = ''https://shop.example.com/x'', link_text = ''two'',
                         external = False\<rparr>,
                        \<lparr>link_url = ''https://cdn.example.net/'', link_text = ''cdn'',
                         external = True\<rparr>]\<rparr>\<rparr>"
  by code_simp

lemma shop_saves: "save shop site = Inr (pre_save site)" "save shop_later site = Inr (pre_save site)"
  by (simp_all add: save_def shop_def shop_later_def)

text \<open>The shop's record after the first persist, at time 10.\<close>

lemma shop_first_persist:
  "snd (updateWebsiteData shop 10 [''w1'' \<mapsto> shop_site] ''w1'') ''w1'' =
     Some \<lparr>domain = ''https://shop.example.com/'', site_technologies = [''nginx'', ''Vue''],
            site_metadata =
              Some \<lparr>title = ''Shop'', description = [], keywords_meta = [],
                     canonical = ''https://shop.example.com/'', viewport = [],
                     ogTitle = [], ogDescription = [], ogImage = []\<rparr>,
            lastCrawledAt = Some 10, lastCrawlStatus = ''success'', crawlError = None\<rparr>"
  by (simp add: updateWebsiteData_def shop_site_def shop_crawl_home shop_saves pre_save_def
        Let_def)

lemma shop_second_persist:
  "map_option site_technologies
     (snd (updateWebsiteData shop_later 20
             (snd (updateWebsiteData shop 10 [''w1'' \<mapsto> shop_site] ''w1'')) ''w1'') ''w1'')
     = Some [''Vue'']"
  by (simp add: updateWebsiteData_def [of shop_later] shop_first_persist shop_later_crawl_home
        shop_saves pre_save_def Let_def)

lemma shop_second_by_model:
  "(case snd (updateWebsiteData shop 10 [''w1'' \<mapsto> shop_site] ''w1'') ''w1'' of
      None \<Rightarrow> Inl WebsiteNotFound
    | Some site \<Rightarrow>
        map_sum id site_technologies
          (updateCrawlStatus shop_later 20 site ''success'' (Some [''Vue''])))
     = Inr [''nginx'', ''Vue'']"
  by (simp add: shop_first_persist updateCrawlStatus_def shop_saves pre_save_def new_Set_def)

text \<open>
  Claim C1, at an input where the code breaks it. The first persist of the shop's record
  stores \<open>nginx\<close> and \<open>Vue\<close>. The second, after the home page stopped sending its
  \<open>Server\<close> header, detects \<open>Vue\<close> alone, and \<open>updateWebsiteData\<close> stores that in
  place of what was known: \<open>nginx\<close> is retracted. The model's own method for recording a
  crawl, \<open>updateCrawlStatus\<close>, given the same record and the same detected technologies,
  keeps both.
\<close>

theorem updateWebsiteData_retracts_technology:
  "map_option site_technologies
     (snd (updateWebsiteData shop 10 [''w1'' \<mapsto> shop_site] ''w1'') ''w1'')
     = Some [''nginx'', ''Vue'']
   \<and> map_option site_technologies
        (snd (updateWebsiteData shop_later 20
                (snd (updateWebsiteData shop 10 [''w1'' \<mapsto> shop_site] ''w1'')) ''w1'') ''w1'')
       = Some [''Vue'']
   \<and> \<not> set [''nginx'', ''Vue''] \<subseteq> set [''Vue'']
   \<and> (case snd (updateWebsiteData shop 10 [''w1'' \<mapsto> shop_site] ''w1'') ''w1'' of
         None \<Rightarrow> Inl WebsiteNotFound
       | Some site \<Rightarrow>
           map_sum id site_technologies
             (updateCrawlStatus shop_later 20 site ''success'' (Some [''Vue''])))
       = Inr [''nginx'', ''Vue'']"
proof (intro conjI)
  show "map_option site_technologies
     (snd (updateWebsiteData shop 10 [''w1'' \<mapsto> shop_site] ''w1'') ''w1'')
     = Some [''nginx'', ''Vue'']"
    by (simp add: shop_first_persist)
qed (rule shop_second_persist, simp, rule shop_second_by_model)

subsection \<open>The traversal\<close>


lemma deep_loop_iterates:
  "\<exists>n. queue ((deep_step w maxDepth ^^ n) st) = []
       \<and> deep_loop w maxDepth st = (deep_step w maxDepth ^^ n) st"
proof (induction w maxDepth st rule: deep_loop.induct)
  case (1 w maxDepth st)
  show ?case
  proof (cases "queue st = []")
    case True
    then have "deep_loop w maxDepth st = st"
      by (subst deep_loop.simps) simp
    with True have "queue ((deep_step w maxDepth ^^ 0) st) = []
       \<and> deep_loop w maxDepth st = (deep_step w maxDepth ^^ 0) st"
      by simp
    then show ?thesis by (rule exI)
  next
    case False
    then have unfold: "deep_loop w maxDepth st = deep_loop w maxDepth (deep_step w maxDepth st)"
      by (subst deep_loop.simps) simp
    from False "1.IH" obtain n
      where n: "queue ((deep_step w maxDepth ^^ n) (deep_step w maxDepth st)) = []"
        "deep_loop w maxDepth (deep_step w maxDepth st)
           = (deep_step w maxDepth ^^ n) (deep_step w maxDepth st)"
      by blast
    have "queue ((deep_step w maxDepth ^^ Suc n) st) = []
       \<and> deep_loop w maxDepth st = (deep_step w maxDepth ^^ Suc n) st"
      using n unfold by (simp add: funpow_swap1)
    then show ?thesis by (rule exI)
  qed
qed

lemma deep_step_queue:
  assumes "queue st = (u, depth) # rest"
  shows "\<exists>kids. queue (deep_step w maxDepth st) = rest @ kids
           \<and> (depth > maxDepth \<or> u \<in> visited st \<longrightarrow> kids = [])
           \<and> (\<forall>k \<in> set kids. snd k = depth + 1 \<and> depth \<le> maxDepth)"
proof (cases "depth > maxDepth \<or> u \<in> visited st")
  case True
  with assms have "queue (deep_step w maxDepth st) = rest @ []"
    by (auto simp: deep_step_def)
  then show ?thesis by (intro exI [of _ "[]"]) simp
next
  case False
  obtain out evs where c: "crawlWebsite w u = (out, evs)" by (cases "crawlWebsite w u")
  show ?thesis
  proof (cases out)
    case (Inl e)
    with assms False c have "queue (deep_step w maxDepth st) = rest @ []"
      by (simp add: deep_step_def)
    then show ?thesis by (intro exI [of _ "[]"]) simp
  next
    case (Inr result)
    let ?kids = "map (\<lambda>l. (link_url l, depth + 1))
        (filter (\<lambda>l. \<not> external l \<and> link_url l \<notin> insert u (visited st))
           (links (result_data result)))"
    from assms False c Inr have q: "queue (deep_step w maxDepth st) = rest @ ?kids"
      by (simp add: deep_step_def Let_def)
    have "\<forall>k \<in> set ?kids. snd k = depth + 1 \<and> depth \<le> maxDepth"
      using False by auto
    with q False show ?thesis by (intro exI [of _ ?kids]) simp
  qed
qed

text \<open>
  Claim C10. From every state of the traversal, and so from the initial state of every
  seed URL and every depth limit, the frontier is empty after finitely many iterations and
  the loop returns the state reached then. An iteration removes the first entry of the
  queue; an entry beyond the depth limit or already visited adds nothing, and a crawled
  page adds entries one level deeper than itself, which happens only within the limit.
\<close>

theorem deep_loop_terminates:
  "(\<exists>n. queue ((deep_step w maxDepth ^^ n) st) = []
        \<and> deep_loop w maxDepth st = (deep_step w maxDepth ^^ n) st)
   \<and> (\<forall>u depth rest. queue st = (u, depth) # rest \<longrightarrow>
         (\<exists>kids. queue (deep_step w maxDepth st) = rest @ kids
            \<and> (depth > maxDepth \<or> u \<in> visited st \<longrightarrow> kids = [])
            \<and> (\<forall>k \<in> set kids. snd k = depth + 1 \<and> depth \<le> maxDepth)))"
proof (rule conjI)
  show "\<exists>n. queue ((deep_step w maxDepth ^^ n) st) = []
        \<and> deep_loop w maxDepth st = (deep_step w maxDepth ^^ n) st"
    by (rule deep_loop_iterates)
next
  show "\<forall>u depth rest. queue st = (u, depth) # rest \<longrightarrow>
         (\<exists>kids. queue (deep_step w maxDepth st) = rest @ kids
            \<and> (depth > maxDepth \<or> u \<in> visited st \<longrightarrow> kids = [])
            \<and> (\<forall>k \<in> set kids. snd k = depth + 1 \<and> depth \<le> maxDepth))"
  proof (intro allI impI)
    fix u depth rest
    assume "queue st = (u, depth) # rest"
    then show "\<exists>kids. queue (deep_step w maxDepth st) = rest @ kids
            \<and> (depth > maxDepth \<or> u \<in> visited st \<longrightarrow> kids = [])
            \<and> (\<forall>k \<in> set kids. snd k = depth + 1 \<and> depth \<le> maxDepth)"
      by (rule deep_step_queue)
  qed
qed

theorem deep_loop_terminates_witness:
  "queue shop_start = [(''https://shop.example.com/'', 0)]
   \<and> (\<exists>n. queue ((deep_step shop 2 ^^ n) shop_start) = []
          \<and> deep_loop shop 2 shop_start = (deep_step shop 2 ^^ n) shop_start)
   \<and> queue (deep_step shop 2 shop_start)
       = [(''https://shop.example.com/x'', 1), (''https://shop.example.com/x'', 1)]
   \<and> queue ((deep_step shop 2 ^^ 3) shop_start) = []"
proof -
  have q: "queue shop_start = [(''https://shop.example.com/'', 0)]"
    by (simp add: shop_start_def)
  have s1: "queue (deep_step shop 2 shop_start)
       = [(''https://shop.example.com/x'', 1), (''https://shop.example.com/x'', 1)]"
    by code_simp
  have s3: "queue ((deep_step shop 2 ^^ 3) shop_start) = []"
    by code_simp
  from deep_loop_terminates [of shop 2 shop_start]
  have "\<exists>n. queue ((deep_step shop 2 ^^ n) shop_start) = []
          \<and> deep_loop shop 2 shop_start = (deep_step shop 2 ^^ n) shop_start"
    by (rule conjunct1)
  with q s1 s3 show ?thesis by simp
qed

subsection \<open>Failures during a traversal\<close>

lemma deep_failures_append [simp]:
  "deep_failures (xs @ ys) = deep_failures xs @ deep_failures ys"
  by (simp add: deep_failures_def)

lemma crawl_failures_append [simp]:
  "crawl_failures (xs @ ys) = crawl_failures xs @ crawl_failures ys"
  by (simp add: crawl_failures_def)












subsection \<open>Fetches during a traversal\<close>

lemma shop_fetched_from_home:
  "fetched (trace (deep_run shop ''https://shop.example.com/'' 2))
     = [''https://shop.example.com/'', ''https://shop.example.com/x'',
        ''https://shop.example.com/x'']"
  by code_simp

lemma shop_fetched_from_http_home:
  "fetched (trace (deep_run shop ''http://shop.example.com/'' 1))
     = [''https://shop.example.com/'', ''https://shop.example.com/'',
        ''https://shop.example.com/x'', ''https://shop.example.com/x'']"
  by code_simp

text \<open>
  Claim C3, at two inputs where the code breaks it. A URL is added to the visited set only
  after its crawl has succeeded, and the set holds the URLs as they stand in the queue, not
  the normalised URLs that are fetched. In the deep crawl of the shop's home page the page
  \<open>/x\<close>, which the home page links twice and which times out, is fetched twice. In the
  deep crawl that starts from \<open>http://shop.example.com/\<close> the home page is fetched as
  \<open>https://shop.example.com/\<close> twice, both times with success: once for the seed and
  once for the link that the home page has to itself.
\<close>

theorem deepCrawlWebsite_fetches_twice:
  "fetched (trace (deep_run shop ''https://shop.example.com/'' 2))
     = [''https://shop.example.com/'', ''https://shop.example.com/x'',
        ''https://shop.example.com/x'']
   \<and> \<not> distinct (fetched (trace (deep_run shop ''https://shop.example.com/'' 2)))
   \<and> fetched (trace (deep_run shop ''http://shop.example.com/'' 1))
       = [''https://shop.example.com/'', ''https://shop.example.com/'',
          ''https://shop.example.com/x'', ''https://shop.example.com/x'']
   \<and> \<not> distinct (fetched (trace (deep_run shop ''http://shop.example.com/'' 1)))"
  by (simp add: shop_fetched_from_home shop_fetched_from_http_home)

end
